theory Spec2Isabelle
  imports Main "HOL-Library.Sublist"
begin

section \<open>Values that cross the HTTP boundary\<close>

text \<open>
  The handlers of \<^verbatim>\<open>app.py\<close> receive the identifier as the text of a path segment
  (route \<^verbatim>\<open>/items/<string:item_id>\<close>) and the request body as the value that
  \<^verbatim>\<open>request.get_json()\<close> decodes. A decoded body is a JSON value; a decoded object
  is kept as an association list and read through \<open>map_of\<close>, so the list stands for
  the dictionary it denotes. Python's \<^verbatim>\<open>float\<close> is a type parameter \<open>'f\<close>: no
  claim computes with prices, they are only stored and handed back.
\<close>

datatype 'f json =
    JNull
  | JBool bool
  | JInt int
  | JFloat 'f
  | JStr string
  | JArr "'f json list"
  | JObj "(string \<times> 'f json) list"

text \<open>
  A stored price is a Python number: the seed records hold \<^verbatim>\<open>int\<close>s, every record
  written by \<^verbatim>\<open>post\<close> or \<^verbatim>\<open>put\<close> holds the \<^verbatim>\<open>float\<close> the schema loaded.
\<close>

datatype 'f number = PyInt int | PyFloat 'f

text \<open>
  An item is a dictionary with exactly the keys \<^verbatim>\<open>id\<close>, \<^verbatim>\<open>name\<close> and
  \<^verbatim>\<open>price\<close>: the seed has them, \<^verbatim>\<open>post\<close> builds them from the two required
  fields of the schema and the assigned id, \<^verbatim>\<open>put\<close> overwrites two of them.
\<close>

record 'f item =
  id' :: int
  name :: string
  price :: "'f number"

definition items_seed :: "'f item list" where
  "items_seed =
     [\<lparr>id' = 1, name = ''Laptop'', price = PyInt 1500\<rparr>,
      \<lparr>id' = 2, name = ''Phone'', price = PyInt 800\<rparr>,
      \<lparr>id' = 3, name = ''Tablet'', price = PyInt 500\<rparr>]"

section \<open>The builtin \<^verbatim>\<open>int\<close> on text\<close>

text \<open>
  \<^verbatim>\<open>int(item_id)\<close> on a \<^verbatim>\<open>str\<close>: surrounding whitespace is dropped, one sign is
  allowed, then decimal digits follow, where single underscores may stand between two
  digits. Anything else raises \<^verbatim>\<open>ValueError\<close>, which is \<open>None\<close> here, and so does
  a literal of more digits than the interpreter converts (4300 unless configured
  otherwise). The model covers ASCII text.
\<close>

definition digit :: "char \<Rightarrow> nat option" where
  "digit c = map_of
     [(CHR ''0'', 0), (CHR ''1'', 1), (CHR ''2'', 2), (CHR ''3'', 3), (CHR ''4'', 4),
      (CHR ''5'', 5), (CHR ''6'', 6), (CHR ''7'', 7), (CHR ''8'', 8), (CHR ''9'', 9)] c"

definition is_space :: "char \<Rightarrow> bool" where
  "is_space c = (c \<in> set [CHR 0x09, CHR 0x0A, CHR 0x0B, CHR 0x0C, CHR 0x0D, CHR '' ''])"

definition strip :: "string \<Rightarrow> string" where
  "strip s = rev (dropWhile is_space (rev (dropWhile is_space s)))"

text \<open>\<open>digits acc cs\<close> reads the text after a digit; \<open>acc\<close> is the value read so far.\<close>

fun digits :: "nat \<Rightarrow> string \<Rightarrow> nat option" where
  "digits acc [] = Some acc"
| "digits acc [c] = (case digit c of Some d \<Rightarrow> Some (acc * 10 + d) | None \<Rightarrow> None)"
| "digits acc (c # c' # cs) =
     (case digit c of
        Some d \<Rightarrow> digits (acc * 10 + d) (c' # cs)
      | None \<Rightarrow>
          if c = CHR ''_'' then
            (case digit c' of Some d \<Rightarrow> digits (acc * 10 + d) cs | None \<Rightarrow> None)
          else None)"

definition int_max_str_digits :: nat where
  "int_max_str_digits = 4300"

definition unsigned :: "string \<Rightarrow> nat option" where
  "unsigned s =
     (case s of
        [] \<Rightarrow> None
      | c # cs \<Rightarrow>
          (case digit c of
             None \<Rightarrow> None
           | Some d \<Rightarrow>
               if length (filter (\<lambda>c. digit c \<noteq> None) s) > int_max_str_digits then None
               else digits d cs))"

definition py_int :: "string \<Rightarrow> int option" where
  "py_int s =
     (case strip s of
        [] \<Rightarrow> None
      | c # cs \<Rightarrow>
          if c = CHR ''-'' then map_option (\<lambda>n. - int n) (unsigned cs)
          else if c = CHR ''+'' then map_option int (unsigned cs)
          else map_option int (unsigned (c # cs)))"

section \<open>The schema\<close>

text \<open>
  \<^verbatim>\<open>ItemSchema\<close> declares \<^verbatim>\<open>name = fields.Str(required=True)\<close> and
  \<^verbatim>\<open>price = fields.Float(required=True)\<close>. \<^verbatim>\<open>item_schema.load\<close> either returns
  the dictionary of the two loaded fields or raises \<^verbatim>\<open>ValidationError\<close> whose
  \<^verbatim>\<open>messages\<close> map each offending field to its errors. A required field that is
  absent and a field that is null are errors, \<^verbatim>\<open>Str\<close> takes text only, and since
  the schema sets no \<^verbatim>\<open>unknown\<close> option a key that is no field of the schema is an
  error too, so loaded data never holds an \<^verbatim>\<open>id\<close>. The messages are kept by their
  kind, not by their wording. The deserialiser of the \<^verbatim>\<open>Float\<close> field belongs to
  the schema library, not to this repository: it is the parameter \<open>flt\<close>, returning
  \<open>None\<close> where the field rejects the value.
\<close>

datatype field_error = Required | Null | Invalid | Unknown | InvalidType

type_synonym messages = "(string \<times> field_error list) list"

definition load_name :: "'f json option \<Rightarrow> field_error + string" where
  "load_name raw =
     (case raw of
        None \<Rightarrow> Inl Required
      | Some JNull \<Rightarrow> Inl Null
      | Some (JStr s) \<Rightarrow> Inr s
      | Some _ \<Rightarrow> Inl Invalid)"

definition load_price :: "('f json \<Rightarrow> 'f option) \<Rightarrow> 'f json option \<Rightarrow> field_error + 'f" where
  "load_price flt raw =
     (case raw of
        None \<Rightarrow> Inl Required
      | Some JNull \<Rightarrow> Inl Null
      | Some v \<Rightarrow> (case flt v of None \<Rightarrow> Inl Invalid | Some x \<Rightarrow> Inr x))"

definition unknown_fields :: "(string \<times> 'f json) list \<Rightarrow> string list" where
  "unknown_fields kvs =
     remdups (filter (\<lambda>k. k \<noteq> ''name'' \<and> k \<noteq> ''price'') (map fst kvs))"

definition field_messages :: "string \<Rightarrow> field_error + 'a \<Rightarrow> messages" where
  "field_messages k r = (case r of Inl e \<Rightarrow> [(k, [e])] | Inr _ \<Rightarrow> [])"

definition item_schema_load ::
  "('f json \<Rightarrow> 'f option) \<Rightarrow> 'f json \<Rightarrow> messages + (string \<times> 'f)" where
  "item_schema_load flt body =
     (case body of
        JObj kvs \<Rightarrow>
          (case (load_name (map_of kvs ''name''),
                 load_price flt (map_of kvs ''price''),
                 unknown_fields kvs) of
             (Inr n, Inr p, []) \<Rightarrow> Inr (n, p)
           | (rn, rp, us) \<Rightarrow>
               Inl (field_messages ''name'' rn @ field_messages ''price'' rp
                    @ map (\<lambda>k. (k, [Unknown])) us))
      | _ \<Rightarrow> Inl [(''_schema'', [InvalidType])])"

section \<open>The resource \<^verbatim>\<open>Item\<close>\<close>

text \<open>
  A handler takes the current value of the global \<^verbatim>\<open>items\<close> and returns what it
  answers together with the value of \<^verbatim>\<open>items\<close> afterwards. The answer is a body
  and a status, or an exception that escapes the handler. The only exception the
  handlers can raise themselves is the \<^verbatim>\<open>ValueError\<close> of \<^verbatim>\<open>int(item_id)\<close>;
  nothing in \<^verbatim>\<open>app.py\<close> catches it, so the framework answers such a request with a
  server error.
\<close>

datatype error = ValueError

datatype 'f body =
    RItems "'f item list"
  | RItem "'f item"
  | RMessage string
  | RMessageItem string "'f item"
  | RInvalid string messages

type_synonym 'f response = "'f body \<times> nat"

type_synonym 'f outcome = "error + 'f response"

text \<open>
  \<^verbatim>\<open>next((item for item in items if item["id"] == int(item_id)), None)\<close>: the
  generator is lazy, so \<^verbatim>\<open>int(item_id)\<close> runs once per item visited and not at all
  on an empty list. The result carries the position of the dictionary it yields,
  because \<^verbatim>\<open>put\<close> mutates that very object.
\<close>

fun next_item :: "nat \<Rightarrow> 'f item list \<Rightarrow> string \<Rightarrow> error + (nat \<times> 'f item) option" where
  "next_item i [] item_id = Inr None"
| "next_item i (item # rest) item_id =
     (case py_int item_id of
        None \<Rightarrow> Inl ValueError
      | Some n \<Rightarrow>
          if id' item = n then Inr (Some (i, item))
          else next_item (Suc i) rest item_id)"

text \<open>
  \<^verbatim>\<open>get\<close> serves both routes: without a token, or with an empty one
  (\<^verbatim>\<open>if item_id:\<close>), it lists the collection. An item is a dictionary with keys, so
  \<^verbatim>\<open>if not item:\<close> holds for \<^verbatim>\<open>None\<close> only.
\<close>

definition get :: "'f item list \<Rightarrow> string option \<Rightarrow> 'f outcome \<times> 'f item list" where
  "get items item_id =
     (case item_id of
        None \<Rightarrow> (Inr (RItems items, 200), items)
      | Some tok \<Rightarrow>
          if tok = [] then (Inr (RItems items, 200), items)
          else
            (case next_item 0 items tok of
               Inl e \<Rightarrow> (Inl e, items)
             | Inr None \<Rightarrow> (Inr (RMessage ''Item not found'', 404), items)
             | Inr (Some (i, item)) \<Rightarrow> (Inr (RItem item, 200), items)))"

text \<open>\<^verbatim>\<open>max(item["id"] for item in items)\<close> on a list that is not empty.\<close>

definition max_id :: "'f item \<Rightarrow> 'f item list \<Rightarrow> int" where
  "max_id item rest = fold max (map id' rest) (id' item)"

definition post ::
  "('f json \<Rightarrow> 'f option) \<Rightarrow> 'f item list \<Rightarrow> 'f json \<Rightarrow> 'f outcome \<times> 'f item list" where
  "post flt items request_json =
     (case item_schema_load flt request_json of
        Inl messages \<Rightarrow> (Inr (RInvalid ''Invalid input'' messages, 400), items)
      | Inr data \<Rightarrow>
          (let item_id = (case items of [] \<Rightarrow> 1 | item # rest \<Rightarrow> max_id item rest + 1);
               data = \<lparr>id' = item_id, name = fst data, price = PyFloat (snd data)\<rparr>
           in (Inr (RMessageItem ''Item created'' data, 201), items @ [data])))"

text \<open>
  \<^verbatim>\<open>existing_item.update(data)\<close> writes the two loaded fields into the dictionary
  the lookup yielded, which is the element of \<^verbatim>\<open>items\<close> at the position found.
\<close>

definition put ::
  "('f json \<Rightarrow> 'f option) \<Rightarrow> 'f item list \<Rightarrow> string \<Rightarrow> 'f json
     \<Rightarrow> 'f outcome \<times> 'f item list" where
  "put flt items item_id request_json =
     (case next_item 0 items item_id of
        Inl e \<Rightarrow> (Inl e, items)
      | Inr None \<Rightarrow> (Inr (RMessage ''Item not found'', 404), items)
      | Inr (Some (i, existing_item)) \<Rightarrow>
          (case item_schema_load flt request_json of
             Inl messages \<Rightarrow> (Inr (RInvalid ''Invalid input'' messages, 400), items)
           | Inr data \<Rightarrow>
               (let existing_item =
                      existing_item\<lparr>name := fst data, price := PyFloat (snd data)\<rparr>
                in (Inr (RMessageItem ''Item updated'' existing_item, 200),
                    items[i := existing_item]))))"

text \<open>
  \<^verbatim>\<open>[item for item in items if item["id"] != int(item_id)]\<close>: the comprehension
  calls \<^verbatim>\<open>int(item_id)\<close> for every item again.
\<close>

fun items_without :: "'f item list \<Rightarrow> string \<Rightarrow> error + 'f item list" where
  "items_without [] item_id = Inr []"
| "items_without (item # rest) item_id =
     (case py_int item_id of
        None \<Rightarrow> Inl ValueError
      | Some n \<Rightarrow>
          (case items_without rest item_id of
             Inl e \<Rightarrow> Inl e
           | Inr kept \<Rightarrow> Inr (if id' item \<noteq> n then item # kept else kept)))"

definition delete :: "'f item list \<Rightarrow> string \<Rightarrow> 'f outcome \<times> 'f item list" where
  "delete items item_id =
     (case next_item 0 items item_id of
        Inl e \<Rightarrow> (Inl e, items)
      | Inr None \<Rightarrow> (Inr (RMessage ''Item not found'', 404), items)
      | Inr (Some (i, item)) \<Rightarrow>
          (case items_without items item_id of
             Inl e \<Rightarrow> (Inl e, items)
           | Inr items' \<Rightarrow> (Inr (RMessage ''Item deleted'', 200), items')))"

section \<open>Histories of the store\<close>

datatype 'f request =
    GET "string option"
  | POST "'f json"
  | PUT string "'f json"
  | DELETE string

definition handle ::
  "('f json \<Rightarrow> 'f option) \<Rightarrow> 'f item list \<Rightarrow> 'f request \<Rightarrow> 'f outcome \<times> 'f item list" where
  "handle flt items req =
     (case req of
        GET item_id \<Rightarrow> get items item_id
      | POST request_json \<Rightarrow> post flt items request_json
      | PUT item_id request_json \<Rightarrow> put flt items item_id request_json
      | DELETE item_id \<Rightarrow> delete items item_id)"

text \<open>
  The store after a sequence of requests, served one after the other. An escaped
  exception ends the request, not the process: the list is as it was.
\<close>

primrec run :: "('f json \<Rightarrow> 'f option) \<Rightarrow> 'f item list \<Rightarrow> 'f request list \<Rightarrow> 'f item list" where
  "run flt items [] = items"
| "run flt items (req # reqs) = run flt (snd (handle flt items req)) reqs"

text \<open>
  An instance of the \<^verbatim>\<open>Float\<close> field for evaluating the handlers on concrete
  requests, with floats of integral value written as integers: JSON integers and
  floats load to their value, text loads where it is an integer literal, and booleans,
  arrays and objects are rejected.
\<close>

definition flt_integral :: "int json \<Rightarrow> int option" where
  "flt_integral v =
     (case v of
        JInt n \<Rightarrow> Some n
      | JFloat x \<Rightarrow> Some x
      | JStr s \<Rightarrow> py_int s
      | _ \<Rightarrow> None)"

section \<open>Facts about the helpers\<close>

lemmas int_eval = py_int_def strip_def is_space_def unsigned_def digit_def
  int_max_str_digits_def

lemmas load_eval = item_schema_load_def load_name_def load_price_def unknown_fields_def
  field_messages_def flt_integral_def

subsection \<open>The lookup\<close>

lemma next_item_None:
  "py_int item_id = Some n \<Longrightarrow> n \<notin> id' ` set items \<Longrightarrow> next_item i items item_id = Inr None"
  by (induction items arbitrary: i) auto

lemma next_item_raises:
  "py_int item_id = None \<Longrightarrow> items \<noteq> [] \<Longrightarrow> next_item i items item_id = Inl ValueError"
  by (cases items) auto

text \<open>A token that names a stored id yields the first item carrying it, with its position.\<close>

lemma next_item_Some:
  "py_int item_id = Some n \<Longrightarrow> n \<in> id' ` set items \<Longrightarrow>
   \<exists>j. j < length items \<and> id' (items ! j) = n \<and> (\<forall>k<j. id' (items ! k) \<noteq> n)
       \<and> next_item i items item_id = Inr (Some (i + j, items ! j))"
proof (induction items arbitrary: i)
  case Nil
  then show ?case by simp
next
  case (Cons item rest)
  show ?case
  proof (cases "id' item = n")
    case True
    with Cons.prems(1)
    have "next_item i (item # rest) item_id = Inr (Some (i + 0, (item # rest) ! 0))"
      by simp
    with True show ?thesis by (intro exI[of _ 0]) simp
  next
    case False
    with Cons.prems(2) have "n \<in> id' ` set rest" by auto
    from Cons.IH[OF Cons.prems(1) this, of "Suc i"]
    obtain j where j: "j < length rest" "id' (rest ! j) = n" "\<forall>k<j. id' (rest ! k) \<noteq> n"
      "next_item (Suc i) rest item_id = Inr (Some (Suc i + j, rest ! j))" by blast
    have "\<forall>k<Suc j. id' ((item # rest) ! k) \<noteq> n"
      using False j(3) by (auto simp: less_Suc_eq_0_disj)
    with j False Cons.prems(1) show ?thesis
      by (intro exI[of _ "Suc j"]) simp
  qed
qed

lemma next_item_found:
  "next_item i items item_id = Inr (Some (k, item)) \<Longrightarrow>
   \<exists>n j. py_int item_id = Some n \<and> k = i + j \<and> j < length items \<and> items ! j = item
        \<and> id' item = n \<and> (\<forall>l<j. id' (items ! l) \<noteq> n)"
proof (induction items arbitrary: i)
  case Nil
  then show ?case by simp
next
  case (Cons a rest)
  from Cons.prems obtain n where n: "py_int item_id = Some n"
    by (auto split: option.splits)
  show ?case
  proof (cases "id' a = n")
    case True
    with Cons.prems n have "k = i" "item = a" by auto
    with True n show ?thesis by (intro exI[of _ n] exI[of _ 0]) simp
  next
    case False
    with Cons.prems n have "next_item (Suc i) rest item_id = Inr (Some (k, item))" by simp
    from Cons.IH[OF this] n
    obtain j where j: "k = Suc i + j" "j < length rest" "rest ! j = item"
      "id' item = n" "\<forall>l<j. id' (rest ! l) \<noteq> n" by auto
    have "\<forall>l<Suc j. id' ((a # rest) ! l) \<noteq> n"
      using False j(5) by (auto simp: less_Suc_eq_0_disj)
    with j n show ?thesis by (intro exI[of _ n] exI[of _ "Suc j"]) simp
  qed
qed

subsection \<open>The comprehension and the maximum\<close>

lemma items_without_filter:
  "py_int item_id = Some n \<Longrightarrow>
   items_without items item_id = Inr (filter (\<lambda>item. id' item \<noteq> n) items)"
  by (induction items) auto

lemma max_id_Max: "max_id item rest = Max (id' ` set (item # rest))"
proof -
  have "max_id item rest = Max (set (id' item # map id' rest))"
    unfolding max_id_def by (rule Max.set_eq_fold[symmetric])
  then show ?thesis by simp
qed

subsection \<open>A request that passes validation\<close>

lemma post_valid:
  assumes "item_schema_load flt request_json = Inr data"
  shows "post flt items request_json =
           (Inr (RMessageItem ''Item created''
                   \<lparr>id' = (if items = [] then 1 else Max (id' ` set items) + 1),
                    name = fst data, price = PyFloat (snd data)\<rparr>, 201),
            items @ [\<lparr>id' = (if items = [] then 1 else Max (id' ` set items) + 1),
                      name = fst data, price = PyFloat (snd data)\<rparr>])"
proof (cases items)
  case Nil
  with assms show ?thesis by (simp add: post_def Let_def)
next
  case (Cons item rest)
  with assms show ?thesis by (simp add: post_def max_id_Max Let_def)
qed

subsection \<open>The schema on listed payloads\<close>

lemma load_rejects_listed:
  assumes "map_of kvs ''name'' = None \<or> map_of kvs ''price'' = None
           \<or> (\<exists>v. map_of kvs ''price'' = Some v \<and> flt v = None)"
  shows "\<exists>messages. item_schema_load flt (JObj kvs) = Inl messages"
  using assms
  by (auto simp: item_schema_load_def load_name_def load_price_def
           split: sum.splits list.splits option.splits json.splits)

lemma load_payload:
  assumes "item_schema_load flt request_json = Inr data"
  shows "\<exists>kvs v. request_json = JObj kvs \<and> map_of kvs ''name'' = Some (JStr (fst data))
           \<and> map_of kvs ''price'' = Some v \<and> flt v = Some (snd data)"
  using assms
  by (auto simp: item_schema_load_def load_name_def load_price_def
           split: json.splits sum.splits list.splits option.splits)


subsection \<open>What the handlers answer\<close>

lemma unparsed_id_raises:
  assumes "py_int item_id = None" and "items \<noteq> []"
  shows "item_id \<noteq> [] \<Longrightarrow> get items (Some item_id) = (Inl ValueError, items)"
    and "put flt items item_id request_json = (Inl ValueError, items)"
    and "delete items item_id = (Inl ValueError, items)"
  using next_item_raises [OF assms, of 0]
  by (simp_all add: get_def put_def delete_def)

lemma unknown_id_not_found:
  assumes "py_int item_id = Some n" and "n \<notin> id' ` set items"
  shows "get items (Some item_id) = (Inr (RMessage ''Item not found'', 404), items)"
    and "delete items item_id = (Inr (RMessage ''Item not found'', 404), items)"
proof -
  from assms(1) have "item_id \<noteq> []" by (auto simp: int_eval)
  with next_item_None [OF assms, of 0]
  show "get items (Some item_id) = (Inr (RMessage ''Item not found'', 404), items)"
    and "delete items item_id = (Inr (RMessage ''Item not found'', 404), items)"
    by (simp_all add: get_def delete_def)
qed



lemma put_ok_cases:
  assumes "put flt items item_id request_json = (Inr (b, 200), items')"
  shows "\<exists>k item data. next_item 0 items item_id = Inr (Some (k, item))
           \<and> item_schema_load flt request_json = Inr data
           \<and> b = RMessageItem ''Item updated'' (item\<lparr>name := fst data, price := PyFloat (snd data)\<rparr>)
           \<and> items' = items[k := item\<lparr>name := fst data, price := PyFloat (snd data)\<rparr>]"
  using assms
  by (auto simp: put_def Let_def split: sum.splits option.splits prod.splits)

lemma post_ok_cases:
  assumes "post flt items request_json = (Inr (b, 201), items')"
  shows "\<exists>data. item_schema_load flt request_json = Inr data"
  using assms by (auto simp: post_def split: sum.splits)

lemma delete_found:
  assumes "py_int item_id = Some n" and "n \<in> id' ` set items"
  shows "delete items item_id
           = (Inr (RMessage ''Item deleted'', 200), filter (\<lambda>item. id' item \<noteq> n) items)"
proof -
  from next_item_Some [OF assms, of 0]
  obtain j where "next_item 0 items item_id = Inr (Some (j, items ! j))" by auto
  with items_without_filter [OF assms(1), of items] show ?thesis
    by (simp add: delete_def)
qed

lemma delete_ok_cases:
  assumes "delete items item_id = (Inr (b, 200), items')"
  shows "\<exists>k item. next_item 0 items item_id = Inr (Some (k, item))
           \<and> items_without items item_id = Inr items' \<and> b = RMessage ''Item deleted''"
  using assms
  by (auto simp: delete_def split: sum.splits option.splits prod.splits)

subsection \<open>Looking up what was just appended\<close>

lemma py_int_Nil: "py_int [] = None"
  by (simp add: int_eval)

lemma next_item_append_new:
  "py_int item_id = Some (id' new) \<Longrightarrow> id' new \<notin> id' ` set items \<Longrightarrow>
   next_item i (items @ [new]) item_id = Inr (Some (i + length items, new))"
  by (induction items arbitrary: i) auto

lemma Max_succ_fresh:
  assumes "items \<noteq> []"
  shows "Max (id' ` set items) + 1 \<notin> id' ` set items"
proof
  assume "Max (id' ` set items) + 1 \<in> id' ` set items"
  then have "Max (id' ` set items) + 1 \<le> Max (id' ` set items)"
    by (intro Max_ge) auto
  then show False by simp
qed

subsection \<open>The ids of the collection\<close>

lemma post_ids:
  "distinct (map id' items) \<Longrightarrow> distinct (map id' (snd (post flt items request_json)))"
proof (cases "item_schema_load flt request_json")
  case (Inl messages)
  assume "distinct (map id' items)"
  with Inl show ?thesis by (simp add: post_def)
next
  case (Inr data)
  assume d: "distinct (map id' items)"
  have "Max (id' ` set items) + 1 \<notin> id' ` set items" if "items \<noteq> []"
  proof
    assume "Max (id' ` set items) + 1 \<in> id' ` set items"
    then have "Max (id' ` set items) + 1 \<le> Max (id' ` set items)"
      by (intro Max_ge) auto
    then show False by simp
  qed
  with d show ?thesis
    by (auto simp: post_valid [OF Inr])
qed

lemma put_ids: "map id' (snd (put flt items item_id request_json)) = map id' items"
proof (cases "next_item 0 items item_id")
  case (Inl e)
  then show ?thesis by (simp add: put_def)
next
  case (Inr r)
  show ?thesis
  proof (cases r)
    case None
    with Inr show ?thesis by (simp add: put_def)
  next
    case (Some found)
    obtain k item where found: "found = (k, item)" by (cases found)
    from next_item_found [of 0 items item_id k item] Inr Some found
    have k: "k < length items" "items ! k = item" by auto
    then have "(map id' items)[k := id' item] = map id' items"
      by (metis list_update_id nth_map)
    with Inr Some found show ?thesis
      by (simp add: put_def map_update Let_def split: sum.splits)
  qed
qed

lemma delete_ids:
  "distinct (map id' items) \<Longrightarrow> distinct (map id' (snd (delete items item_id)))"
proof (cases "py_int item_id")
  case None
  assume "distinct (map id' items)"
  with None show ?thesis
    by (cases items) (simp_all add: delete_def)
next
  case (Some n)
  assume "distinct (map id' items)"
  with items_without_filter [OF Some, of items] show ?thesis
    by (simp add: delete_def distinct_map_filter split: sum.splits option.splits)
qed

lemma handle_ids:
  "distinct (map id' items) \<Longrightarrow> distinct (map id' (snd (handle flt items req)))"
  by (cases req) (simp_all add: handle_def post_ids put_ids delete_ids get_def
        split: option.splits sum.splits)

lemma run_ids:
  "distinct (map id' items) \<Longrightarrow> distinct (map id' (run flt items reqs))"
  by (induction reqs arbitrary: items) (simp_all add: handle_ids)

section \<open>The claims\<close>

text \<open>
  C1. The spec has every id token that resolves to no item, tokens that are no integer
  included, answered by 404 "Item not found" from get, put and delete, never by a
  server error. On the seed store the token \<^verbatim>\<open>abc\<close> makes \<^verbatim>\<open>int(item_id)\<close> raise
  \<^verbatim>\<open>ValueError\<close> in all three handlers, and no handler catches it; only on an empty
  store, where the lazy generator never calls \<^verbatim>\<open>int\<close>, is the answer 404.
\<close>

theorem nonnumeric_id_raises:
  "get (items_seed :: 'f item list) (Some ''abc'') = (Inl ValueError, items_seed)
   \<and> put flt (items_seed :: 'f item list) ''abc'' request_json = (Inl ValueError, items_seed)
   \<and> delete (items_seed :: 'f item list) ''abc'' = (Inl ValueError, items_seed)
   \<and> get ([] :: 'f item list) (Some ''abc'') = (Inr (RMessage ''Item not found'', 404), [])"
  by (simp add: get_def put_def delete_def items_seed_def int_eval)

text \<open>
  C2. For every payload the schema accepts, \<^verbatim>\<open>post\<close> answers 201 "Item created",
  the new item's id is one more than the largest id in the collection just before the
  call, or 1 when the collection was empty, and the item is appended at the end.
\<close>

theorem post_assigns_next_id:
  assumes "item_schema_load flt request_json = Inr data"
  shows "post flt items request_json =
           (Inr (RMessageItem ''Item created''
                   \<lparr>id' = (if items = [] then 1 else Max (id' ` set items) + 1),
                    name = fst data, price = PyFloat (snd data)\<rparr>, 201),
            items @ [\<lparr>id' = (if items = [] then 1 else Max (id' ` set items) + 1),
                      name = fst data, price = PyFloat (snd data)\<rparr>])"
  using assms by (rule post_valid)

theorem post_assigns_next_id_witness:
  "item_schema_load flt_integral (JObj [(''name'', JStr ''Monitor''), (''price'', JInt 300)])
     = Inr (''Monitor'', 300)
   \<and> post flt_integral items_seed (JObj [(''name'', JStr ''Monitor''), (''price'', JInt 300)]) =
       (Inr (RMessageItem ''Item created''
               \<lparr>id' = 4, name = ''Monitor'', price = PyFloat 300\<rparr>, 201),
        items_seed @ [\<lparr>id' = 4, name = ''Monitor'', price = PyFloat 300\<rparr>])"
proof -
  have h: "item_schema_load flt_integral
             (JObj [(''name'', JStr ''Monitor''), (''price'', JInt 300)]) = Inr (''Monitor'', 300)"
    by (simp add: load_eval)
  show ?thesis
    using h post_assigns_next_id [OF h, of items_seed] by (simp add: items_seed_def)
qed






text \<open>
  C5. Whatever requests are served, in whatever order, starting from the three seed
  records, the ids in the collection are pairwise distinct.
\<close>

theorem ids_pairwise_distinct:
  "distinct (map id' (run flt items_seed reqs))"
  by (rule run_ids) (simp add: items_seed_def)

text \<open>
  C6. Whenever \<^verbatim>\<open>put\<close> answers 200, the id resolved to the first item carrying it,
  the body is an object whose \<^verbatim>\<open>name\<close> is text and whose \<^verbatim>\<open>price\<close> the
  \<^verbatim>\<open>Float\<close> field loaded, the answer is "Item updated" with that item after its
  name and price were overwritten by the loaded values, the item keeps its id and its
  place, and every other item of the collection is what it was.
\<close>

theorem put_overwrites_matched_item:
  assumes "put flt items item_id request_json = (Inr (b, 200), items')"
  shows "\<exists>n i kvs v x s.
           py_int item_id = Some n \<and> i < length items \<and> id' (items ! i) = n
           \<and> (\<forall>k<i. id' (items ! k) \<noteq> n)
           \<and> request_json = JObj kvs \<and> map_of kvs ''name'' = Some (JStr s)
           \<and> map_of kvs ''price'' = Some v \<and> flt v = Some x
           \<and> b = RMessageItem ''Item updated'' ((items ! i)\<lparr>name := s, price := PyFloat x\<rparr>)
           \<and> length items' = length items
           \<and> (\<forall>j<length items.
                 items' ! j = (if j = i then (items ! i)\<lparr>name := s, price := PyFloat x\<rparr>
                              else items ! j))"
proof -
  from put_ok_cases [OF assms]
  obtain k item data where c: "next_item 0 items item_id = Inr (Some (k, item))"
      "item_schema_load flt request_json = Inr data"
      "b = RMessageItem ''Item updated'' (item\<lparr>name := fst data, price := PyFloat (snd data)\<rparr>)"
      "items' = items[k := item\<lparr>name := fst data, price := PyFloat (snd data)\<rparr>]"
    by blast
  from next_item_found [OF c(1)]
  obtain n where n: "py_int item_id = Some n" "k < length items" "items ! k = item"
      "id' item = n" "\<forall>l<k. id' (items ! l) \<noteq> n"
    by auto
  from load_payload [OF c(2)]
  obtain kvs v where p: "request_json = JObj kvs" "map_of kvs ''name'' = Some (JStr (fst data))"
      "map_of kvs ''price'' = Some v" "flt v = Some (snd data)"
    by blast
  have frame: "\<forall>j<length items.
      items' ! j = (if j = k then (items ! k)\<lparr>name := fst data, price := PyFloat (snd data)\<rparr>
                    else items ! j)"
    using c(4) n(2,3) by (simp add: nth_list_update)
  show ?thesis
    using c(3,4) n p frame
    by (intro exI[of _ n] exI[of _ k] exI[of _ kvs] exI[of _ v] exI[of _ "snd data"]
          exI[of _ "fst data"]) simp
qed

theorem put_overwrites_matched_item_witness:
  "put flt_integral items_seed ''1''
       (JObj [(''name'', JStr ''Gaming Laptop''), (''price'', JInt 2000)])
     = (Inr (RMessageItem ''Item updated''
               \<lparr>id' = 1, name = ''Gaming Laptop'', price = PyFloat 2000\<rparr>, 200),
        [\<lparr>id' = 1, name = ''Gaming Laptop'', price = PyFloat 2000\<rparr>,
         \<lparr>id' = 2, name = ''Phone'', price = PyInt 800\<rparr>,
         \<lparr>id' = 3, name = ''Tablet'', price = PyInt 500\<rparr>])
   \<and> (\<exists>n i kvs v x s.
           py_int ''1'' = Some n \<and> i < length (items_seed :: int item list) \<and> id' ((items_seed :: int item list) ! i) = n
           \<and> (\<forall>k<i. id' ((items_seed :: int item list) ! k) \<noteq> n)
           \<and> (JObj [(''name'', JStr ''Gaming Laptop''), (''price'', JInt 2000)]) = JObj kvs \<and> map_of kvs ''name'' = Some (JStr s)
           \<and> map_of kvs ''price'' = Some v \<and> flt_integral v = Some x
           \<and> (RMessageItem ''Item updated''
               \<lparr>id' = 1, name = ''Gaming Laptop'', price = PyFloat 2000\<rparr>) = RMessageItem ''Item updated'' (((items_seed :: int item list) ! i)\<lparr>name := s, price := PyFloat x\<rparr>)
           \<and> length ([\<lparr>id' = 1, name = ''Gaming Laptop'', price = PyFloat 2000\<rparr>,
         \<lparr>id' = 2, name = ''Phone'', price = PyInt 800\<rparr>,
         \<lparr>id' = 3, name = ''Tablet'', price = PyInt 500\<rparr>] :: int item list) = length (items_seed :: int item list)
           \<and> (\<forall>j<length (items_seed :: int item list).
                 [\<lparr>id' = 1, name = ''Gaming Laptop'', price = PyFloat 2000\<rparr>,
         \<lparr>id' = 2, name = ''Phone'', price = PyInt 800\<rparr>,
         \<lparr>id' = 3, name = ''Tablet'', price = PyInt 500\<rparr>] ! j = (if j = i then ((items_seed :: int item list) ! i)\<lparr>name := s, price := PyFloat x\<rparr>
                              else (items_seed :: int item list) ! j)))"
proof -
  have h: "put flt_integral items_seed ''1''
             (JObj [(''name'', JStr ''Gaming Laptop''), (''price'', JInt 2000)])
     = (Inr (RMessageItem ''Item updated''
               \<lparr>id' = 1, name = ''Gaming Laptop'', price = PyFloat 2000\<rparr>, 200),
        [\<lparr>id' = 1, name = ''Gaming Laptop'', price = PyFloat 2000\<rparr>,
         \<lparr>id' = 2, name = ''Phone'', price = PyInt 800\<rparr>,
         \<lparr>id' = 3, name = ''Tablet'', price = PyInt 500\<rparr>])"
    by (simp add: put_def items_seed_def load_eval int_eval Let_def)
  show ?thesis
    by (rule conjI [OF h put_overwrites_matched_item [OF h]])
qed

text \<open>
  C7. Whenever \<^verbatim>\<open>delete\<close> answers 200, the token is an integer that some item
  carries, the answer is "Item deleted", and the new collection is the old one without
  the items of that id: exactly those are gone, and what remains stands in its old
  relative order.
\<close>

theorem delete_removes_by_id:
  assumes "delete items item_id = (Inr (b, 200), items')"
  shows "\<exists>n. py_int item_id = Some n \<and> n \<in> id' ` set items
           \<and> b = RMessage ''Item deleted''
           \<and> items' = filter (\<lambda>item. id' item \<noteq> n) items
           \<and> set items' = {item \<in> set items. id' item \<noteq> n}
           \<and> subseq items' items"
proof -
  from delete_ok_cases [OF assms]
  obtain k item where c: "next_item 0 items item_id = Inr (Some (k, item))"
      "items_without items item_id = Inr items'" "b = RMessage ''Item deleted''"
    by blast
  from next_item_found [OF c(1)]
  obtain n where n: "py_int item_id = Some n" "k < length items" "items ! k = item" "id' item = n"
    by auto
  from n(2-4) have "n \<in> id' ` set items"
    by (metis imageI nth_mem)
  moreover from items_without_filter [OF n(1), of items] c(2)
  have "items' = filter (\<lambda>item. id' item \<noteq> n) items" by simp
  ultimately show ?thesis
    using n(1) c(3) by (intro exI[of _ n]) auto
qed

theorem delete_removes_by_id_witness:
  "delete (items_seed :: int item list) ''3''
     = (Inr (RMessage ''Item deleted'', 200),
        [\<lparr>id' = 1, name = ''Laptop'', price = PyInt 1500\<rparr>,
         \<lparr>id' = 2, name = ''Phone'', price = PyInt 800\<rparr>])
   \<and> (\<exists>n. py_int ''3'' = Some n \<and> n \<in> id' ` set (items_seed :: int item list)
           \<and> RMessage ''Item deleted'' = (RMessage ''Item deleted'' :: int body)
           \<and> [\<lparr>id' = 1, name = ''Laptop'', price = PyInt 1500\<rparr>,
               \<lparr>id' = 2, name = ''Phone'', price = PyInt 800\<rparr>]
              = filter (\<lambda>item. id' item \<noteq> n) (items_seed :: int item list)
           \<and> set [\<lparr>id' = 1, name = ''Laptop'', price = PyInt 1500\<rparr>,
                   \<lparr>id' = 2, name = ''Phone'', price = PyInt 800\<rparr>]
              = {item \<in> set (items_seed :: int item list). id' item \<noteq> n}
           \<and> subseq [\<lparr>id' = 1, name = ''Laptop'', price = PyInt 1500\<rparr>,
                      \<lparr>id' = 2, name = ''Phone'', price = PyInt 800\<rparr>]
                (items_seed :: int item list))"
proof -
  have h: "delete (items_seed :: int item list) ''3''
     = (Inr (RMessage ''Item deleted'', 200),
        [\<lparr>id' = 1, name = ''Laptop'', price = PyInt 1500\<rparr>,
         \<lparr>id' = 2, name = ''Phone'', price = PyInt 800\<rparr>])"
    by (simp add: delete_def items_seed_def int_eval)
  show ?thesis
    by (rule conjI [OF h delete_removes_by_id [OF h]])
qed

text \<open>
  C8. Whenever \<^verbatim>\<open>post\<close> answers 201, the body was an object with a text
  \<^verbatim>\<open>name\<close> and a \<^verbatim>\<open>price\<close> the \<^verbatim>\<open>Float\<close> field loaded, the created item
  carries that name and that loaded price, and \<^verbatim>\<open>get\<close> on the new collection, with
  any token that reads as the id of the created item, answers 200 with the created item.
\<close>

theorem post_then_get:
  assumes "post flt items request_json = (Inr (b, 201), items')"
  shows "\<exists>created kvs v x s.
           b = RMessageItem ''Item created'' created
           \<and> request_json = JObj kvs \<and> map_of kvs ''name'' = Some (JStr s)
           \<and> map_of kvs ''price'' = Some v \<and> flt v = Some x
           \<and> name created = s \<and> price created = PyFloat x
           \<and> (\<forall>tok. py_int tok = Some (id' created) \<longrightarrow>
                 get items' (Some tok) = (Inr (RItem created, 200), items'))"
proof -
  from post_ok_cases [OF assms]
  obtain data where d: "item_schema_load flt request_json = Inr data" by blast
  define created :: "'a item" where
    "created = \<lparr>id' = (if items = [] then 1 else Max (id' ` set items) + 1),
                 name = fst data, price = PyFloat (snd data)\<rparr>"
  from post_valid [OF d, of items] assms
  have b: "b = RMessageItem ''Item created'' created" and i: "items' = items @ [created]"
    by (simp_all add: created_def)
  have fresh: "id' created \<notin> id' ` set items"
    using Max_succ_fresh [of items] by (cases "items = []") (simp_all add: created_def)
  have g: "get items' (Some tok) = (Inr (RItem created, 200), items')"
    if t: "py_int tok = Some (id' created)" for tok
  proof -
    from t have "tok \<noteq> []" using py_int_Nil by auto
    with next_item_append_new [OF t fresh, of 0] i show ?thesis
      by (simp add: get_def)
  qed
  from load_payload [OF d]
  obtain kvs v where p: "request_json = JObj kvs" "map_of kvs ''name'' = Some (JStr (fst data))"
      "map_of kvs ''price'' = Some v" "flt v = Some (snd data)"
    by blast
  have nm: "name created = fst data" "price created = PyFloat (snd data)"
    by (simp_all add: created_def)
  show ?thesis
    using b p nm g
    by (intro exI[of _ created] exI[of _ kvs] exI[of _ v] exI[of _ "snd data"]
          exI[of _ "fst data"]) simp
qed

theorem post_then_get_witness:
  "post flt_integral items_seed (JObj [(''name'', JStr ''Monitor''), (''price'', JInt 300)])
     = (Inr (RMessageItem ''Item created''
               \<lparr>id' = 4, name = ''Monitor'', price = PyFloat 300\<rparr>, 201),
        items_seed @ [\<lparr>id' = 4, name = ''Monitor'', price = PyFloat 300\<rparr>])
   \<and> (\<exists>created kvs v x s.
           RMessageItem ''Item created'' \<lparr>id' = 4, name = ''Monitor'', price = PyFloat 300\<rparr>
             = RMessageItem ''Item created'' created
           \<and> JObj [(''name'', JStr ''Monitor''), (''price'', JInt 300)] = JObj kvs
           \<and> map_of kvs ''name'' = Some (JStr s)
           \<and> map_of kvs ''price'' = Some v \<and> flt_integral v = Some x
           \<and> name created = s \<and> price created = PyFloat x
           \<and> (\<forall>tok. py_int tok = Some (id' created) \<longrightarrow>
                 get (items_seed @ [\<lparr>id' = 4, name = ''Monitor'', price = PyFloat 300\<rparr>])
                     (Some tok)
                 = (Inr (RItem created, 200),
                    items_seed @ [\<lparr>id' = 4, name = ''Monitor'', price = PyFloat 300\<rparr>])))
   \<and> py_int ''4'' = Some 4
   \<and> get (items_seed @ [\<lparr>id' = 4, name = ''Monitor'', price = PyFloat 300\<rparr>]) (Some ''4'')
       = (Inr (RItem \<lparr>id' = 4, name = ''Monitor'', price = PyFloat (300 :: int)\<rparr>, 200),
          items_seed @ [\<lparr>id' = 4, name = ''Monitor'', price = PyFloat 300\<rparr>])"
proof -
  have h: "post flt_integral items_seed
             (JObj [(''name'', JStr ''Monitor''), (''price'', JInt 300)])
     = (Inr (RMessageItem ''Item created''
               \<lparr>id' = 4, name = ''Monitor'', price = PyFloat 300\<rparr>, 201),
        items_seed @ [\<lparr>id' = 4, name = ''Monitor'', price = PyFloat 300\<rparr>])"
    by (simp add: post_def items_seed_def load_eval max_id_def Let_def)
  have p: "py_int ''4'' = Some 4" by (simp add: int_eval)
  have g: "get (items_seed @ [\<lparr>id' = 4, name = ''Monitor'', price = PyFloat 300\<rparr>]) (Some ''4'')
       = (Inr (RItem \<lparr>id' = 4, name = ''Monitor'', price = PyFloat (300 :: int)\<rparr>, 200),
          items_seed @ [\<lparr>id' = 4, name = ''Monitor'', price = PyFloat 300\<rparr>])"
    by (simp add: get_def items_seed_def int_eval)
  show ?thesis
    by (rule conjI [OF h conjI [OF post_then_get [OF h] conjI [OF p g]]])
qed

text \<open>
  C9, as the spec states it: after the item holding the largest id is deleted, the next
  create is given that id again. The store with ids 1, 2, 3 and 5 is reached from the
  seed by two creates and the deletion of 4; deleting 5 and creating again assigns 4.
\<close>

theorem id_reused_after_delete_counterexample:
  "run flt_integral items_seed
       [POST (JObj [(''name'', JStr ''Monitor''), (''price'', JInt 300)]),
        POST (JObj [(''name'', JStr ''Mouse''), (''price'', JInt 20)]),
        DELETE ''4'']
     = items_seed @ [\<lparr>id' = 5, name = ''Mouse'', price = PyFloat 20\<rparr>]
   \<and> Max (id' ` set (items_seed @ [\<lparr>id' = 5, name = ''Mouse'', price = PyFloat (20 :: int)\<rparr>])) = 5
   \<and> delete (items_seed @ [\<lparr>id' = 5, name = ''Mouse'', price = PyFloat (20 :: int)\<rparr>]) ''5''
     = (Inr (RMessage ''Item deleted'', 200), items_seed)
   \<and> post flt_integral items_seed (JObj [(''name'', JStr ''Keyboard''), (''price'', JInt 50)])
     = (Inr (RMessageItem ''Item created''
               \<lparr>id' = 4, name = ''Keyboard'', price = PyFloat 50\<rparr>, 201),
        items_seed @ [\<lparr>id' = 4, name = ''Keyboard'', price = PyFloat 50\<rparr>])"
  by (simp add: handle_def post_def delete_def items_seed_def load_eval int_eval max_id_def
        Let_def)

text \<open>
  C9, amended. After the items holding the largest id \<open>m\<close> are deleted, the id is gone
  from the collection and the next create is given one more than the largest id that
  remains, or 1 if nothing remains. That is \<open>m\<close> again exactly when an item with id
  \<open>m - 1\<close> was in the collection, or \<open>m\<close> is 1 and nothing remains; so ids are reused
  over the history of the store, as from the seed, where deleting 3 and creating gives 3.
\<close>

theorem id_reused_after_delete:
  assumes "items \<noteq> []" and "Max (id' ` set items) = m"
    and "py_int item_id = Some m"
    and "item_schema_load flt request_json = Inr data"
  shows "\<exists>items' created.
           delete items item_id = (Inr (RMessage ''Item deleted'', 200), items')
           \<and> m \<notin> id' ` set items'
           \<and> fst (post flt items' request_json) = Inr (RMessageItem ''Item created'' created, 201)
           \<and> id' created = (if items' = [] then 1 else Max (id' ` set items') + 1)
           \<and> (id' created = m \<longleftrightarrow> m - 1 \<in> id' ` set items \<or> (items' = [] \<and> m = 1))"
proof -
  from assms(1,2) have held: "m \<in> id' ` set items"
    using Max_in [of "id' ` set items"] by auto
  from assms(2) have largest: "\<forall>item\<in>set items. id' item \<le> m"
    using Max_ge [of "id' ` set items"] by auto
  define items' where "items' = filter (\<lambda>item. id' item \<noteq> m) items"
  define created :: "'a item" where
    "created = \<lparr>id' = (if items' = [] then 1 else Max (id' ` set items') + 1),
                 name = fst data, price = PyFloat (snd data)\<rparr>"
  have d: "delete items item_id = (Inr (RMessage ''Item deleted'', 200), items')"
    unfolding items'_def by (rule delete_found [OF assms(3) held])
  have gone: "m \<notin> id' ` set items'"
    by (auto simp: items'_def)
  have p: "fst (post flt items' request_json) = Inr (RMessageItem ''Item created'' created, 201)"
    by (simp add: post_valid [OF assms(4)] created_def)
  have c: "id' created = (if items' = [] then 1 else Max (id' ` set items') + 1)"
    by (simp add: created_def)
  have ids: "id' ` set items' = id' ` set items - {m}"
    by (auto simp: items'_def)
  have r: "id' created = m \<longleftrightarrow> m - 1 \<in> id' ` set items \<or> (items' = [] \<and> m = 1)"
  proof (cases "items' = []")
    case True
    with ids have "id' ` set items \<subseteq> {m}" by auto
    then have "m - 1 \<notin> id' ` set items" by auto
    with True c show ?thesis by auto
  next
    case False
    let ?M = "Max (id' ` set items')"
    from False have in': "?M \<in> id' ` set items'"
      by (intro Max_in) auto
    with ids largest have lt: "?M < m" by (auto simp: less_le)
    have "?M = m - 1 \<longleftrightarrow> m - 1 \<in> id' ` set items'"
    proof
      assume "?M = m - 1"
      with in' show "m - 1 \<in> id' ` set items'" by simp
    next
      assume "m - 1 \<in> id' ` set items'"
      then have "m - 1 \<le> ?M" by (intro Max_ge) auto
      with lt show "?M = m - 1" by simp
    qed
    moreover have "m - 1 \<in> id' ` set items' \<longleftrightarrow> m - 1 \<in> id' ` set items"
      using ids by auto
    ultimately show ?thesis using False c by auto
  qed
  from d gone p c r show ?thesis by blast
qed

theorem id_reused_after_delete_witness:
  "(items_seed :: int item list) \<noteq> [] \<and> Max (id' ` set (items_seed :: int item list)) = 3
   \<and> py_int ''3'' = Some 3
   \<and> item_schema_load flt_integral (JObj [(''name'', JStr ''Monitor''), (''price'', JInt 300)])
       = Inr (''Monitor'', 300)
   \<and> (\<exists>items' created.
           delete (items_seed :: int item list) ''3''
             = (Inr (RMessage ''Item deleted'', 200), items')
           \<and> 3 \<notin> id' ` set items'
           \<and> fst (post flt_integral items'
                     (JObj [(''name'', JStr ''Monitor''), (''price'', JInt 300)]))
               = Inr (RMessageItem ''Item created'' created, 201)
           \<and> id' created = (if items' = [] then 1 else Max (id' ` set items') + 1)
           \<and> (id' created = 3 \<longleftrightarrow>
                 3 - 1 \<in> id' ` set (items_seed :: int item list) \<or> (items' = [] \<and> (3 :: int) = 1)))
   \<and> fst (post flt_integral (snd (delete items_seed ''3''))
             (JObj [(''name'', JStr ''Monitor''), (''price'', JInt 300)]))
       = Inr (RMessageItem ''Item created''
                \<lparr>id' = 3, name = ''Monitor'', price = PyFloat 300\<rparr>, 201)"
proof -
  have n: "(items_seed :: int item list) \<noteq> []" by (simp add: items_seed_def)
  have m: "Max (id' ` set (items_seed :: int item list)) = 3" by (simp add: items_seed_def)
  have p: "py_int ''3'' = Some 3" by (simp add: int_eval)
  have v: "item_schema_load flt_integral
             (JObj [(''name'', JStr ''Monitor''), (''price'', JInt 300)]) = Inr (''Monitor'', 300)"
    by (simp add: load_eval)
  have e: "fst (post flt_integral (snd (delete items_seed ''3''))
             (JObj [(''name'', JStr ''Monitor''), (''price'', JInt 300)]))
       = Inr (RMessageItem ''Item created''
                \<lparr>id' = 3, name = ''Monitor'', price = PyFloat 300\<rparr>, 201)"
    by (simp add: post_def delete_def items_seed_def load_eval int_eval max_id_def Let_def)
  show ?thesis
    by (rule conjI [OF n conjI [OF m conjI [OF p conjI [OF v
          conjI [OF id_reused_after_delete [OF n m p v] e]]]]])
qed



end
